theory Spec2Isabelle
  imports Main "HOL-Library.Multiset"
begin

section \<open>The commit history widget (src/components/git.tsx)\<close>

subsection \<open>Values received from the API\<close>

text \<open>
  \<open>response.json()\<close> yields an arbitrary JavaScript value; the TypeScript interfaces
  \<open>GitHubRepo\<close> and \<open>GitHubCommit\<close> are annotations only and are not checked at run
  time. The payload of a number is never inspected by the component. \<open>JUndefined\<close> is
  the result of reading a property that is absent.
\<close>

datatype js =
    JUndefined
  | JNull
  | JBool bool
  | JNum int
  | JStr string
  | JArr "js list"
  | JObj "(string \<times> js) list"

text \<open>
  What the code can throw. Every exception is caught by one of the two \<open>try\<close> blocks of
  \<open>fetchCommits\<close>, neither of which looks at the exception it caught.
\<close>

datatype exn =
    TypeError
  | SyntaxError
  | NetworkFailure
  | StatusError nat
  | NotAnArray

text \<open>
  Property access \<open>v.p\<close>: a \<open>TypeError\<close> on \<open>undefined\<close> and \<open>null\<close>, the own property of
  an object, and \<open>undefined\<close> otherwise. The component reads only \<open>full_name\<close>, \<open>sha\<close>,
  \<open>commit\<close>, \<open>message\<close>, \<open>author\<close> and \<open>date\<close>, none of which is inherited from a
  built-in prototype.
\<close>

fun get_prop :: "js \<Rightarrow> string \<Rightarrow> exn + js" where
  "get_prop JUndefined p = Inl TypeError"
| "get_prop JNull p = Inl TypeError"
| "get_prop (JObj kvs) p = Inr (case map_of kvs p of None \<Rightarrow> JUndefined | Some v \<Rightarrow> v)"
| "get_prop v p = Inr JUndefined"

text \<open>
  Conversion of a received value to a primitive, as a template literal and the \<open>Date\<close>
  constructor perform it. It throws a \<open>TypeError\<close> on an object with an own property
  \<open>toString\<close>: a parsed value is never callable, and the inherited \<open>valueOf\<close> returns
  the object itself. An array is joined, which converts each element other than \<open>null\<close>
  and \<open>undefined\<close>.
\<close>

fun conversion_throws :: "js \<Rightarrow> bool" where
  "conversion_throws (JObj kvs) = (map_of kvs ''toString'' \<noteq> None)"
| "conversion_throws (JArr xs) = list_ex conversion_throws xs"
| "conversion_throws v = False"

text \<open>
  A \<open>Date\<close> is its time value in milliseconds; \<open>None\<close> is an invalid date, whose
  \<open>getTime()\<close> is \<open>NaN\<close>.
\<close>

type_synonym date = "int option"

record Commit =
  id_commit :: js
  message :: js
  repo :: js
  timestamp :: date

text \<open>
  The outcome of one \<open>fetch\<close> call: the promise rejects, or it resolves to a response
  with its \<open>ok\<close> flag, its status and what \<open>response.json()\<close> will give (a rejection
  when the body is not JSON).
\<close>

datatype body = Unparsable | Json js

datatype outcome = Rejected | Response bool nat body

text \<open>
  The two URLs requested. The commits URL is determined by \<open>repo.full_name\<close>, which
  stands for it here.
\<close>

datatype request = UserRepos | RepoCommits js

text \<open>
  The surroundings of one poll cycle: the remote API, and the \<open>Date\<close> constructor of the
  runtime applied to a received value.
\<close>

record env =
  fetch :: "request \<Rightarrow> outcome"
  new_Date :: "js \<Rightarrow> date"

subsection \<open>One repository's commits (lines 62-96)\<close>

text \<open>Sequencing of steps that may throw: an exception skips what follows.\<close>

definition bind_exn :: "exn + 'a \<Rightarrow> ('a \<Rightarrow> exn + 'b) \<Rightarrow> exn + 'b" where
  "bind_exn r f = (case r of Inl x \<Rightarrow> Inl x | Inr v \<Rightarrow> f v)"

text \<open>
  The template literal \<open>${repo.full_name}\<close> of lines 65, 76 and 91. The string it builds
  is determined by the value, which stands for it.
\<close>

definition template :: "js \<Rightarrow> exn + js" where
  "template v = (if conversion_throws v then Inl TypeError else Inr v)"

text \<open>\<open>new Date(v)\<close> on a received value.\<close>

definition construct_Date :: "env \<Rightarrow> js \<Rightarrow> exn + date" where
  "construct_Date e v = (if conversion_throws v then Inl TypeError else Inr (new_Date e v))"

text \<open>The callback of \<open>commits.map\<close>, lines 83-88; the fields in the order of the literal.\<close>

definition to_Commit :: "env \<Rightarrow> js \<Rightarrow> js \<Rightarrow> exn + Commit" where
  "to_Commit e full_name commit =
     bind_exn (get_prop commit ''sha'') (\<lambda>sha.
     bind_exn (get_prop commit ''commit'') (\<lambda>c1.
     bind_exn (get_prop c1 ''message'') (\<lambda>msg.
     bind_exn (get_prop commit ''commit'') (\<lambda>c2.
     bind_exn (get_prop c2 ''author'') (\<lambda>author.
     bind_exn (get_prop author ''date'') (\<lambda>d.
     bind_exn (construct_Date e d) (\<lambda>t.
     Inr \<lparr>id_commit = sha, message = msg, repo = full_name, timestamp = t\<rparr>)))))))"

text \<open>\<open>Array.prototype.map\<close> with a callback that may throw: the first exception ends it.\<close>

fun map_exn :: "('a \<Rightarrow> exn + 'b) \<Rightarrow> 'a list \<Rightarrow> exn + 'b list" where
  "map_exn f [] = Inr []"
| "map_exn f (x # xs) =
     bind_exn (f x) (\<lambda>y. bind_exn (map_exn f xs) (\<lambda>ys. Inr (y # ys)))"

text \<open>
  \<open>commits.map(...)\<close> on the parsed body: only an array has a callable \<open>map\<close>; on
  \<open>null\<close> the property read throws, on anything else the call of a non-function does.
\<close>

definition map_commits :: "env \<Rightarrow> js \<Rightarrow> js \<Rightarrow> exn + Commit list" where
  "map_commits e full_name parsed =
     (case parsed of
        JArr cs \<Rightarrow> map_exn (to_Commit e full_name) cs
      | _ \<Rightarrow> Inl TypeError)"

text \<open>The body of the inner \<open>try\<close>, lines 64-88.\<close>

definition repo_try :: "env \<Rightarrow> js \<Rightarrow> exn + Commit list" where
  "repo_try e rp =
     bind_exn (get_prop rp ''full_name'') (\<lambda>full_name.
     bind_exn (template full_name) (\<lambda>url.
       (case fetch e (RepoCommits url) of
          Rejected \<Rightarrow> Inl NetworkFailure
        | Response ok status b \<Rightarrow>
            if \<not> ok
            then bind_exn (template full_name) (\<lambda>label.
                   (case b of Unparsable \<Rightarrow> Inl SyntaxError | Json w \<Rightarrow> Inr []))
            else (case b of
                    Unparsable \<Rightarrow> Inl SyntaxError
                  | Json parsed \<Rightarrow> map_commits e full_name parsed))))"

text \<open>
  The inner \<open>catch\<close>, lines 89-95. Its warning builds \<open>${repo.full_name}\<close> once more
  before \<open>return []\<close>, so it throws again when the name cannot be read or converted.
\<close>

definition repo_catch :: "js \<Rightarrow> exn + Commit list" where
  "repo_catch rp =
     bind_exn (get_prop rp ''full_name'') (\<lambda>full_name.
     bind_exn (template full_name) (\<lambda>label. Inr []))"

text \<open>
  The callback of \<open>repos.map\<close>: the promise it returns is fulfilled with a list of
  commits, or rejected with what the \<open>catch\<close> threw.
\<close>

definition repo_commits :: "env \<Rightarrow> js \<Rightarrow> exn + Commit list" where
  "repo_commits e rp = (case repo_try e rp of Inl x \<Rightarrow> repo_catch rp | Inr cs \<Rightarrow> Inr cs)"

subsection \<open>Flatten, sort, truncate (lines 99-102)\<close>

text \<open>
  The comparator \<open>(a, b) => b.timestamp.getTime() - a.timestamp.getTime()\<close>; \<open>None\<close> is
  \<open>NaN\<close>. Time values are integers of magnitude at most 8.64e15, so the subtraction is
  exact.
\<close>

definition compareFn :: "Commit \<Rightarrow> Commit \<Rightarrow> int option" where
  "compareFn a b =
     (case (timestamp b, timestamp a) of
        (Some tb, Some ta) \<Rightarrow> Some (tb - ta)
      | _ \<Rightarrow> None)"

text \<open>ECMAScript's SortCompare: a comparator result of \<open>NaN\<close> counts as \<open>+0\<close>.\<close>

definition SortCompare :: "Commit \<Rightarrow> Commit \<Rightarrow> int" where
  "SortCompare a b = (case compareFn a b of None \<Rightarrow> 0 | Some v \<Rightarrow> v)"

text \<open>
  \<open>Array.prototype.sort\<close> is stable. For a consistent comparator the result is the
  same for every conforming implementation, and the stable insertion sort below computes
  it. When some timestamp is invalid the comparator is not consistent and ECMAScript
  leaves the order to the implementation; the result is still a permutation.
\<close>

fun insert_sorted :: "Commit \<Rightarrow> Commit list \<Rightarrow> Commit list" where
  "insert_sorted x [] = [x]"
| "insert_sorted x (y # ys) =
     (if SortCompare x y \<le> 0 then x # y # ys else y # insert_sorted x ys)"

definition js_sort :: "Commit list \<Rightarrow> Commit list" where
  "js_sort xs = foldr insert_sorted xs []"

text \<open>\<open>allCommits.flat().sort(...).slice(0, 25)\<close>.\<close>

definition flattenedCommits :: "Commit list list \<Rightarrow> Commit list" where
  "flattenedCommits allCommits = take 25 (js_sort (concat allCommits))"

subsection \<open>Component state (lines 26-33)\<close>

text \<open>
  \<open>lastUpdated\<close> is a \<open>new Date()\<close>, always valid: the wall clock in milliseconds.
\<close>

record state =
  commits :: "Commit list"
  loading :: bool
  error :: "string option"
  isRefreshing :: bool
  isBlinking :: bool
  lastUpdated :: int
  isFullscreen :: bool
  isMinimized :: bool

definition initial_state :: "int \<Rightarrow> state" where
  "initial_state clock =
     \<lparr>commits = [], loading = True, error = None, isRefreshing = False,
      isBlinking = False, lastUpdated = clock, isFullscreen = False, isMinimized = False\<rparr>"

subsection \<open>One poll cycle: \<open>fetchCommits\<close> (lines 36-112)\<close>

text \<open>\<open>Array.isArray\<close>, and the elements \<open>repos.map\<close> visits.\<close>

fun isArray :: "js \<Rightarrow> bool" where
  "isArray (JArr xs) = True"
| "isArray v = False"

fun elements :: "js \<Rightarrow> js list" where
  "elements (JArr xs) = xs"
| "elements v = []"

text \<open>
  The body of the outer \<open>try\<close> up to the value of \<open>flattenedCommits\<close>, lines 39-102.
  \<open>Promise.all\<close> is rejected as soon as one callback is; the \<open>catch\<close> does not look at
  the reason, so which rejection comes first makes no difference.
\<close>

definition cycle_try :: "env \<Rightarrow> exn + Commit list" where
  "cycle_try e =
     (case fetch e UserRepos of
        Rejected \<Rightarrow> Inl NetworkFailure
      | Response ok status b \<Rightarrow>
          if \<not> ok then Inl (StatusError status)
          else (case b of
                  Unparsable \<Rightarrow> Inl SyntaxError
                | Json repos \<Rightarrow>
                    if \<not> isArray repos then Inl NotAnArray
                    else bind_exn (map_exn (repo_commits e) (elements repos))
                           (\<lambda>allCommits. Inr (flattenedCommits allCommits))))"

text \<open>Line 37, before the first \<open>await\<close>.\<close>

definition fetch_begin :: "state \<Rightarrow> state" where
  "fetch_begin s = s\<lparr>isRefreshing := True\<rparr>"

text \<open>
  The state updates once the cycle has its result: lines 104-105 when the \<open>try\<close> body
  completed, lines 108-109 in the \<open>catch\<close>.
\<close>

definition fetch_settle :: "exn + Commit list \<Rightarrow> state \<Rightarrow> state" where
  "fetch_settle r s =
     (case r of
        Inr cs \<Rightarrow> s\<lparr>commits := cs, loading := False\<rparr>
      | Inl x \<Rightarrow> s\<lparr>error := Some ''Failed to load commit history'', loading := False\<rparr>)"

text \<open>
  A whole cycle with nothing else happening in between. The timeout of line 111, which
  resets \<open>isRefreshing\<close> one second later, is part of the timers below.
\<close>

definition fetchCommits :: "env \<Rightarrow> state \<Rightarrow> state" where
  "fetchCommits e s = fetch_settle (cycle_try e) (fetch_begin s)"

subsection \<open>Rendering (lines 174-323)\<close>

text \<open>
  The four returns of the component, in the order of the source. \<open>if (error)\<close> tests
  a \<open>string | null\<close> for truthiness: the empty string is falsy.
\<close>

datatype view = Loading_view | Error_view string | Minimized_view | Normal_view

definition render :: "state \<Rightarrow> view" where
  "render s =
     (if loading s then Loading_view
      else case error s of
        Some (c # cs) \<Rightarrow> Error_view (c # cs)
      | _ \<Rightarrow> if isMinimized s then Minimized_view else Normal_view)"

text \<open>
  The commit entries on screen: only the last return maps over \<open>commits\<close> (line 307);
  the loading view shows ten placeholders, the error view the message.
\<close>

definition rendered_commits :: "state \<Rightarrow> Commit list" where
  "rendered_commits s = (case render s of Normal_view \<Rightarrow> commits s | _ \<Rightarrow> [])"

text \<open>
  The elements of the rendered tree that matter for clicks: the full-screen backdrop,
  the panel inside it with its title bar, the two buttons of the title bar, the content
  area, and the chip of the minimized view.
\<close>

datatype element =
  Backdrop | Panel | TitleBar | FullscreenButton | CloseButton | ContentArea | Chip

fun present :: "view \<Rightarrow> element \<Rightarrow> bool" where
  "present Loading_view el = (el \<noteq> Chip)"
| "present Normal_view el = (el \<noteq> Chip)"
| "present (Error_view m) el = (el \<in> {Backdrop, Panel, TitleBar, ContentArea})"
| "present Minimized_view el = (el = Chip)"

text \<open>The element and its ancestors, innermost first: the path a click bubbles along.\<close>

fun bubble_path :: "element \<Rightarrow> element list" where
  "bubble_path Backdrop = [Backdrop]"
| "bubble_path Panel = [Panel, Backdrop]"
| "bubble_path TitleBar = [TitleBar, Panel, Backdrop]"
| "bubble_path FullscreenButton = [FullscreenButton, TitleBar, Panel, Backdrop]"
| "bubble_path CloseButton = [CloseButton, TitleBar, Panel, Backdrop]"
| "bubble_path ContentArea = [ContentArea, Panel, Backdrop]"
| "bubble_path Chip = [Chip]"

text \<open>The \<open>onClick\<close> attributes of each view.\<close>

datatype handler = HandleClickOutside | HandleClose | ToggleFullscreen | Restore

fun onClick :: "view \<Rightarrow> element \<Rightarrow> handler option" where
  "onClick Loading_view Backdrop = Some HandleClickOutside"
| "onClick Loading_view CloseButton = Some HandleClose"
| "onClick Normal_view Backdrop = Some HandleClickOutside"
| "onClick Normal_view FullscreenButton = Some ToggleFullscreen"
| "onClick Normal_view CloseButton = Some HandleClose"
| "onClick Minimized_view Chip = Some Restore"
| "onClick v el = None"

text \<open>The \<open>disabled\<close> attribute (line 204): a disabled button receives no click.\<close>

fun disabled :: "view \<Rightarrow> element \<Rightarrow> bool" where
  "disabled Loading_view FullscreenButton = True"
| "disabled v el = False"

subsection \<open>Event handlers (lines 142-172, 254, 291)\<close>

text \<open>
  The prop \<open>onClose\<close> is optional. Calling it is an effect outside the component: a
  handler returns the list of callbacks it invoked, in order.
\<close>

definition handleClickOutside :: "'cb option \<Rightarrow> element \<Rightarrow> element \<Rightarrow> 'cb list" where
  "handleClickOutside onClose target currentTarget =
     (case onClose of
        Some cb \<Rightarrow> if target = currentTarget then [cb] else []
      | None \<Rightarrow> [])"

definition handleClose :: "'cb option \<Rightarrow> 'cb list" where
  "handleClose onClose = (case onClose of Some cb \<Rightarrow> [cb] | None \<Rightarrow> [])"

definition handleEscapeKey :: "'cb option \<Rightarrow> string \<Rightarrow> 'cb list" where
  "handleEscapeKey onClose key =
     (if key = ''Escape'' then (case onClose of Some cb \<Rightarrow> [cb] | None \<Rightarrow> []) else [])"

definition run_handler ::
  "'cb option \<Rightarrow> handler \<Rightarrow> element \<Rightarrow> element \<Rightarrow> state \<Rightarrow> state \<times> 'cb list" where
  "run_handler onClose h target currentTarget s =
     (case h of
        HandleClickOutside \<Rightarrow> (s, handleClickOutside onClose target currentTarget)
      | HandleClose \<Rightarrow> (s, handleClose onClose)
      | ToggleFullscreen \<Rightarrow> (s\<lparr>isFullscreen := \<not> isFullscreen s\<rparr>, [])
      | Restore \<Rightarrow> (s\<lparr>isMinimized := False\<rparr>, []))"

text \<open>A click bubbles from its target outwards and runs the handler of each element.\<close>

fun bubble ::
  "'cb option \<Rightarrow> view \<Rightarrow> element \<Rightarrow> element list \<Rightarrow> state \<Rightarrow> state \<times> 'cb list" where
  "bubble onClose v target [] s = (s, [])"
| "bubble onClose v target (el # els) s =
     (case onClick v el of
        None \<Rightarrow> bubble onClose v target els s
      | Some h \<Rightarrow>
          (let (s1, calls1) = run_handler onClose h target el s;
               (s2, calls2) = bubble onClose v target els s1
           in (s2, calls1 @ calls2)))"

datatype user_event = Click element | KeyDown string

text \<open>
  What one user event does to the mounted component. A click can only hit an element of
  the current view; the key listener is on the document, whatever the view.
\<close>

definition handle_event :: "'cb option \<Rightarrow> state \<Rightarrow> user_event \<Rightarrow> state \<times> 'cb list" where
  "handle_event onClose s ev =
     (case ev of
        Click target \<Rightarrow>
          if present (render s) target \<and> \<not> disabled (render s) target
          then bubble onClose (render s) target (bubble_path target) s
          else (s, [])
      | KeyDown key \<Rightarrow> (s, handleEscapeKey onClose key))"

subsection \<open>The fullscreen effect (lines 129-140)\<close>

text \<open>
  Inline styles of the document, by node and property; the effect writes
  \<open>document.body.style.overflow\<close>.
\<close>

type_synonym styles = "string \<times> string \<rightharpoonup> string"

definition fullscreen_effect :: "bool \<Rightarrow> styles \<Rightarrow> styles" where
  "fullscreen_effect fs sty =
     (if fs then sty((''body'', ''overflow'') \<mapsto> ''hidden'')
      else sty((''body'', ''overflow'') \<mapsto> ''auto''))"

definition fullscreen_cleanup :: "styles \<Rightarrow> styles" where
  "fullscreen_cleanup sty = sty((''body'', ''overflow'') \<mapsto> ''auto'')"

text \<open>
  React runs the effect after the first render, and after a render in which the
  dependency \<open>isFullscreen\<close> changed it runs the previous cleanup and then the effect. On
  unmount it runs the cleanup.
\<close>

definition effect_on_mount :: "state \<Rightarrow> styles \<Rightarrow> styles" where
  "effect_on_mount s sty = fullscreen_effect (isFullscreen s) sty"

definition effect_on_update :: "state \<Rightarrow> state \<Rightarrow> styles \<Rightarrow> styles" where
  "effect_on_update old new sty =
     (if isFullscreen new = isFullscreen old then sty
      else fullscreen_effect (isFullscreen new) (fullscreen_cleanup sty))"

definition effect_on_unmount :: "styles \<Rightarrow> styles" where
  "effect_on_unmount sty = fullscreen_cleanup sty"

text \<open>A user event on the mounted component, with the effects of the render it causes.\<close>

definition user_step ::
  "'cb option \<Rightarrow> state \<times> styles \<Rightarrow> user_event \<Rightarrow> (state \<times> styles) \<times> 'cb list" where
  "user_step onClose w ev =
     (let (s1, calls) = handle_event onClose (fst w) ev
      in ((s1, effect_on_update (fst w) s1 (snd w)), calls))"

subsection \<open>Timers (lines 111-126)\<close>

text \<open>
  The mount effect registers two intervals and calls \<open>fetchCommits\<close> once; the blink
  callback and \<open>fetchCommits\<close> each register a timeout of one second. Time is the
  simulated clock of the event loop, in milliseconds.
\<close>

datatype task = RunBlink | BlinkOff | RunFetch | RefreshOff

record timer =
  due :: int
  period :: "int option"
  job :: task

record page =
  widget :: state
  clock :: int
  timers :: "timer list"
  inflight :: "(int \<times> (exn + Commit list)) list"

text \<open>
  What the network does to the poll started at a given time: it never answers, or the
  cycle reaches its end after some delay with the responses of an \<open>env\<close>.
\<close>

type_synonym network = "int \<Rightarrow> (nat \<times> env) option"

definition setTimeout :: "task \<Rightarrow> int \<Rightarrow> page \<Rightarrow> page" where
  "setTimeout j d pg =
     pg\<lparr>timers := timers pg @ [\<lparr>due = clock pg + d, period = None, job = j\<rparr>]\<rparr>"

definition setInterval :: "task \<Rightarrow> int \<Rightarrow> page \<Rightarrow> page" where
  "setInterval j d pg =
     pg\<lparr>timers := timers pg @ [\<lparr>due = clock pg + d, period = Some d, job = j\<rparr>]\<rparr>"

text \<open>
  \<open>fetchCommits\<close> up to its first \<open>await\<close>; the rest of the cycle runs when the
  responses are in, at least one millisecond later.
\<close>

definition start_fetch :: "network \<Rightarrow> page \<Rightarrow> page" where
  "start_fetch net pg =
     (let pg1 = pg\<lparr>widget := fetch_begin (widget pg)\<rparr>
      in case net (clock pg) of
           None \<Rightarrow> pg1
         | Some (delay, e) \<Rightarrow>
             pg1\<lparr>inflight := inflight pg1 @ [(clock pg + 1 + int delay, cycle_try e)]\<rparr>)"

text \<open>Lines 104-111: the state updates, then the timeout that ends the refresh.\<close>

definition finish_fetch :: "exn + Commit list \<Rightarrow> page \<Rightarrow> page" where
  "finish_fetch r pg = setTimeout RefreshOff 1000 (pg\<lparr>widget := fetch_settle r (widget pg)\<rparr>)"

text \<open>The callbacks: lines 115-117, the two timeouts, and \<open>fetchCommits\<close>.\<close>

definition run_job :: "network \<Rightarrow> task \<Rightarrow> page \<Rightarrow> page" where
  "run_job net j pg =
     (case j of
        RunBlink \<Rightarrow>
          setTimeout BlinkOff 1000
            (pg\<lparr>widget := (widget pg)\<lparr>isBlinking := True, lastUpdated := clock pg\<rparr>\<rparr>)
      | BlinkOff \<Rightarrow> pg\<lparr>widget := (widget pg)\<lparr>isBlinking := False\<rparr>\<rparr>
      | RunFetch \<Rightarrow> start_fetch net pg
      | RefreshOff \<Rightarrow> pg\<lparr>widget := (widget pg)\<lparr>isRefreshing := False\<rparr>\<rparr>)"

text \<open>A timer that is due: an interval is armed again, then the callback runs.\<close>

definition fire :: "network \<Rightarrow> timer \<Rightarrow> page \<Rightarrow> page" where
  "fire net tm pg =
     run_job net (job tm)
       (case period tm of
          None \<Rightarrow> pg
        | Some p \<Rightarrow> pg\<lparr>timers := timers pg @ [tm\<lparr>due := due tm + p\<rparr>]\<rparr>)"

text \<open>
  One millisecond of the event loop: the timers now due fire in the order of their
  registration, then the polls whose responses have arrived run to their end.
\<close>

definition tick :: "network \<Rightarrow> page \<Rightarrow> page" where
  "tick net pg =
     (let pg1 = pg\<lparr>clock := clock pg + 1\<rparr>;
          ready = filter (\<lambda>tm. due tm \<le> clock pg1) (timers pg1);
          pg2 = pg1\<lparr>timers := filter (\<lambda>tm. \<not> due tm \<le> clock pg1) (timers pg1)\<rparr>;
          pg3 = foldl (\<lambda>p tm. fire net tm p) pg2 ready;
          arrived = filter (\<lambda>a. fst a \<le> clock pg3) (inflight pg3);
          pg4 = pg3\<lparr>inflight := filter (\<lambda>a. \<not> fst a \<le> clock pg3) (inflight pg3)\<rparr>
      in foldl (\<lambda>p a. finish_fetch (snd a) p) pg4 arrived)"

fun advance :: "network \<Rightarrow> nat \<Rightarrow> page \<Rightarrow> page" where
  "advance net 0 pg = pg"
| "advance net (Suc n) pg = tick net (advance net n pg)"

text \<open>The mount effect, lines 114-121, at clock time \<open>t0\<close>.\<close>

definition mount :: "network \<Rightarrow> int \<Rightarrow> page" where
  "mount net t0 =
     (let pg0 = \<lparr>widget = initial_state t0, clock = t0, timers = [], inflight = []\<rparr>;
          pg1 = setInterval RunBlink 3000 pg0;
          pg2 = start_fetch net pg1
      in setInterval RunFetch 300000 pg2)"

subsection \<open>Notions used in the statements\<close>

text \<open>Orders on commits by timestamp; an invalid date is in no order with anything.\<close>

definition not_older :: "Commit \<Rightarrow> Commit \<Rightarrow> bool" where
  "not_older a b =
     (case (timestamp a, timestamp b) of
        (Some ta, Some tb) \<Rightarrow> tb \<le> ta
      | _ \<Rightarrow> False)"

definition newer :: "Commit \<Rightarrow> Commit \<Rightarrow> bool" where
  "newer a b =
     (case (timestamp a, timestamp b) of
        (Some ta, Some tb) \<Rightarrow> tb < ta
      | _ \<Rightarrow> False)"

definition valid_dates :: "Commit list \<Rightarrow> bool" where
  "valid_dates cs = list_all (\<lambda>c. timestamp c \<noteq> None) cs"

text \<open>A list entry whose \<open>full_name\<close> can be read and put into the URL.\<close>

definition name_readable :: "js \<Rightarrow> bool" where
  "name_readable rp =
     (case get_prop rp ''full_name'' of
        Inl x \<Rightarrow> False
      | Inr n \<Rightarrow> \<not> conversion_throws n)"

text \<open>
  A repository whose commit fetch fails: the request is rejected, the response is not
  \<open>ok\<close>, its body cannot be parsed, or the processing of the body (lines 82-88) throws.
\<close>

definition repo_fails :: "env \<Rightarrow> js \<Rightarrow> bool" where
  "repo_fails e rp =
     (case get_prop rp ''full_name'' of
        Inl x \<Rightarrow> False
      | Inr n \<Rightarrow>
          \<not> conversion_throws n \<and>
          (case fetch e (RepoCommits n) of
             Rejected \<Rightarrow> True
           | Response ok status b \<Rightarrow>
               (case b of
                  Unparsable \<Rightarrow> True
                | Json parsed \<Rightarrow> \<not> ok \<or> isl (map_commits e n parsed))))"

text \<open>
  The part of a page that the blink indicator lives in: the two state variables written
  by the blink callback and the pending timers of the blink interval and its timeout.
\<close>

definition blinkish :: "timer \<Rightarrow> bool" where
  "blinkish tm = (job tm = RunBlink \<or> job tm = BlinkOff)"

definition blink_part :: "page \<Rightarrow> bool \<times> int \<times> timer list" where
  "blink_part pg = (isBlinking (widget pg), lastUpdated (widget pg), filter blinkish (timers pg))"

text \<open>What firing a blink timer at clock time \<open>c\<close> does to that part.\<close>

definition blink_fire :: "int \<Rightarrow> bool \<times> int \<times> timer list \<Rightarrow> timer \<Rightarrow> bool \<times> int \<times> timer list" where
  "blink_fire c v tm =
     (case v of (b, l, ts) \<Rightarrow>
        (let ts1 = (case period tm of None \<Rightarrow> ts | Some p \<Rightarrow> ts @ [tm\<lparr>due := due tm + p\<rparr>])
         in if job tm = RunBlink
            then (True, c, ts1 @ [\<lparr>due = c + 1000, period = None, job = BlinkOff\<rparr>])
            else (False, l, ts1)))"

subsection \<open>Example data\<close>

text \<open>Payloads in the shape of the GitHub API, and the dates used in the examples.\<close>

definition gh_repo :: "string \<Rightarrow> js" where
  "gh_repo name = JObj [(''full_name'', JStr name)]"

definition gh_commit :: "string \<Rightarrow> string \<Rightarrow> string \<Rightarrow> js" where
  "gh_commit sha msg d =
     JObj [(''sha'', JStr sha),
           (''commit'', JObj [(''message'', JStr msg), (''author'', JObj [(''date'', JStr d)])])]"

definition example_Date :: "js \<Rightarrow> date" where
  "example_Date v =
     (if v = JStr ''2024-01-01T00:00:00Z'' then Some 1704067200000
      else if v = JStr ''2024-01-02T00:00:00Z'' then Some 1704153600000
      else if v = JStr ''2024-01-03T00:00:00Z'' then Some 1704240000000
      else None)"

text \<open>
  An API that answers the repository list with \<open>repos\<close> and the commits of the
  repositories in \<open>table\<close>; any other repository is not found.
\<close>

definition api :: "outcome \<Rightarrow> (js \<times> outcome) list \<Rightarrow> env" where
  "api repos table =
     \<lparr>fetch = (\<lambda>r. case r of
                 UserRepos \<Rightarrow> repos
               | RepoCommits n \<Rightarrow>
                   (case map_of table n of
                      Some out \<Rightarrow> out
                    | None \<Rightarrow> Response False 404 (Json (JObj [(''message'', JStr ''Not Found'')])))),
      new_Date = example_Date\<rparr>"

definition ok_json :: "js \<Rightarrow> outcome" where
  "ok_json v = Response True 200 (Json v)"

text \<open>Two repositories with one commit each, made at the same instant.\<close>

definition env_tie :: env where
  "env_tie =
     api (ok_json (JArr [gh_repo ''a/x'', gh_repo ''b/y'']))
       [(JStr ''a/x'', ok_json (JArr [gh_commit ''c1'' ''fix'' ''2024-01-02T00:00:00Z''])),
        (JStr ''b/y'', ok_json (JArr [gh_commit ''c2'' ''bump'' ''2024-01-02T00:00:00Z'']))]"

text \<open>Repository \<open>a/x\<close> is refused, repository \<open>b/y\<close> has three commits.\<close>

definition env_partial :: env where
  "env_partial =
     api (ok_json (JArr [gh_repo ''a/x'', gh_repo ''b/y'']))
       [(JStr ''a/x'', Response False 403 (Json (JObj [(''message'', JStr ''Forbidden'')]))),
        (JStr ''b/y'', ok_json (JArr
           [gh_commit ''c1'' ''one'' ''2024-01-01T00:00:00Z'',
            gh_commit ''c2'' ''two'' ''2024-01-03T00:00:00Z'',
            gh_commit ''c3'' ''three'' ''2024-01-02T00:00:00Z'']))]"

text \<open>The repository list has a \<open>null\<close> entry before repository \<open>b/y\<close>.\<close>

definition env_null :: env where
  "env_null =
     api (ok_json (JArr [JNull, gh_repo ''b/y'']))
       [(JStr ''b/y'', ok_json (JArr [gh_commit ''c1'' ''one'' ''2024-01-01T00:00:00Z'']))]"

text \<open>The repository list is an object, not an array.\<close>

definition env_object :: env where
  "env_object = api (ok_json (JObj [(''message'', JStr ''Bad credentials'')])) []"

text \<open>The repository list answers with status 500; and an API with one repository.\<close>

definition env_down :: env where
  "env_down = api (Response False 500 Unparsable) []"

text \<open>A network on which every poll fails after 120 ms.\<close>

definition net_down :: network where
  "net_down t = Some (120, env_down)"

definition env_up :: env where
  "env_up =
     api (ok_json (JArr [gh_repo ''a/x'']))
       [(JStr ''a/x'', ok_json (JArr [gh_commit ''c1'' ''fix'' ''2024-01-02T00:00:00Z'']))]"

section \<open>Properties\<close>

subsection \<open>The sort\<close>

lemma set_insert_sorted: "set (insert_sorted x ys) = insert x (set ys)"
  by (induction ys) auto

lemma mset_insert_sorted: "mset (insert_sorted x ys) = add_mset x (mset ys)"
  by (induction ys) auto

lemma mset_js_sort: "mset (js_sort xs) = mset xs"
  by (induction xs) (simp_all add: js_sort_def mset_insert_sorted)

lemma length_js_sort: "length (js_sort xs) = length xs"
  using mset_js_sort [of xs] by (metis size_mset)

lemma set_js_sort: "set (js_sort xs) = set xs"
  using mset_js_sort [of xs] by (metis set_mset_mset)

lemma SortCompare_valid:
  "timestamp a = Some ta \<Longrightarrow> timestamp b = Some tb \<Longrightarrow> SortCompare a b = tb - ta"
  by (simp add: SortCompare_def compareFn_def)

lemma sorted_insert_sorted:
  assumes "timestamp x \<noteq> None" "\<forall>y\<in>set ys. timestamp y \<noteq> None" "sorted_wrt not_older ys"
  shows "sorted_wrt not_older (insert_sorted x ys)"
  using assms
proof (induction ys)
  case Nil
  then show ?case by simp
next
  case (Cons y ys)
  obtain tx ty where t: "timestamp x = Some tx" "timestamp y = Some ty"
    using Cons.prems by auto
  show ?case
  proof (cases "SortCompare x y \<le> 0")
    case True
    then have xy: "not_older x y" using t by (simp add: SortCompare_valid not_older_def)
    have "\<forall>z\<in>set ys. not_older x z"
    proof
      fix z assume z: "z \<in> set ys"
      then have "not_older y z" using Cons.prems(3) by simp
      then show "not_older x z" using xy t
        by (auto simp: not_older_def split: option.splits)
    qed
    then show ?thesis using True xy Cons.prems(3) by simp
  next
    case False
    then have yx: "not_older y x" using t by (simp add: SortCompare_valid not_older_def)
    have "sorted_wrt not_older (insert_sorted x ys)"
      using Cons by simp
    then show ?thesis using False yx Cons.prems(3) by (simp add: set_insert_sorted)
  qed
qed

lemma sorted_js_sort:
  "\<forall>c\<in>set xs. timestamp c \<noteq> None \<Longrightarrow> sorted_wrt not_older (js_sort xs)"
proof (induction xs)
  case Nil
  then show ?case by (simp add: js_sort_def)
next
  case (Cons x xs)
  have "sorted_wrt not_older (insert_sorted x (js_sort xs))"
    using Cons by (intro sorted_insert_sorted) (simp_all add: set_js_sort)
  then show ?case by (simp add: js_sort_def)
qed

lemma strict_of_distinct:
  "sorted_wrt not_older xs \<Longrightarrow> distinct (map timestamp xs) \<Longrightarrow> sorted_wrt newer xs"
proof (induction xs)
  case Nil
  then show ?case by simp
next
  case (Cons x xs)
  have "\<forall>y\<in>set xs. newer x y"
  proof
    fix y assume y: "y \<in> set xs"
    then have "not_older x y" "timestamp x \<noteq> timestamp y" using Cons.prems by auto
    then show "newer x y" by (auto simp: not_older_def newer_def split: option.splits)
  qed
  then show ?case using Cons by simp
qed

lemma distinct_js_sort:
  "distinct (map timestamp xs) \<Longrightarrow> distinct (map timestamp (js_sort xs))"
proof -
  assume d: "distinct (map timestamp xs)"
  have "mset (map timestamp (js_sort xs)) = mset (map timestamp xs)"
    by (simp add: mset_js_sort)
  then show ?thesis using d by (rule mset_eq_imp_distinct_iff [THEN iffD2])
qed

text \<open>
  On valid dates the sort is the stable sort of the library by descending time value:
  commits of equal timestamp keep the order in which they were flattened.
\<close>

lemma insert_sorted_insort_key:
  "timestamp x \<noteq> None \<Longrightarrow> \<forall>y\<in>set ys. timestamp y \<noteq> None \<Longrightarrow>
   insert_sorted x ys = insort_key (\<lambda>c. - the (timestamp c)) x ys"
  by (induction ys) (auto simp: SortCompare_valid)

lemma js_sort_stable:
  "\<forall>c\<in>set xs. timestamp c \<noteq> None \<Longrightarrow> js_sort xs = sort_key (\<lambda>c. - the (timestamp c)) xs"
proof (induction xs)
  case Nil
  then show ?case by (simp add: js_sort_def)
next
  case (Cons x xs)
  then have "js_sort xs = sort_key (\<lambda>c. - the (timestamp c)) xs" by simp
  moreover have "insert_sorted x (js_sort xs) = insort_key (\<lambda>c. - the (timestamp c)) x (js_sort xs)"
    using Cons.prems by (intro insert_sorted_insort_key) (simp_all add: set_js_sort)
  ultimately show ?case by (simp add: js_sort_def)
qed

subsection \<open>The displayed list is bounded and sorted\<close>

text \<open>
  Claim C1, as the code has it. Whatever the per-repository results are, the list handed
  to \<open>setCommits\<close> has at most 25 entries. When every timestamp is a valid date the list
  is in descending order of timestamp, commits of equal timestamp being allowed next to
  each other; it is strictly descending when moreover no two commits share a timestamp.
\<close>

theorem flattenedCommits_bounded_sorted:
  "length (flattenedCommits allCommits) \<le> 25 \<and>
   (valid_dates (concat allCommits) \<longrightarrow> sorted_wrt not_older (flattenedCommits allCommits)) \<and>
   (valid_dates (concat allCommits) \<and> distinct (map timestamp (concat allCommits)) \<longrightarrow>
      sorted_wrt newer (flattenedCommits allCommits))"
proof (intro conjI impI)
  show "length (flattenedCommits allCommits) \<le> 25"
    by (simp add: flattenedCommits_def)
next
  assume "valid_dates (concat allCommits)"
  then have "sorted_wrt not_older (js_sort (concat allCommits))"
    by (intro sorted_js_sort) (simp add: valid_dates_def list_all_iff)
  then show "sorted_wrt not_older (flattenedCommits allCommits)"
    unfolding flattenedCommits_def by (rule sorted_wrt_take)
next
  assume a: "valid_dates (concat allCommits) \<and> distinct (map timestamp (concat allCommits))"
  then have "sorted_wrt not_older (js_sort (concat allCommits))"
    by (intro sorted_js_sort) (simp add: valid_dates_def list_all_iff)
  then have "sorted_wrt newer (js_sort (concat allCommits))"
    using a by (intro strict_of_distinct distinct_js_sort) simp_all
  then show "sorted_wrt newer (flattenedCommits allCommits)"
    unfolding flattenedCommits_def by (rule sorted_wrt_take)
qed

theorem flattenedCommits_bounded_sorted_witness:
  "cycle_try env_partial =
     Inr (flattenedCommits
       [[],
        [\<lparr>id_commit = JStr ''c1'', message = JStr ''one'', repo = JStr ''b/y'',
           timestamp = Some 1704067200000\<rparr>,
         \<lparr>id_commit = JStr ''c2'', message = JStr ''two'', repo = JStr ''b/y'',
           timestamp = Some 1704240000000\<rparr>,
         \<lparr>id_commit = JStr ''c3'', message = JStr ''three'', repo = JStr ''b/y'',
           timestamp = Some 1704153600000\<rparr>]]) \<and>
   length (flattenedCommits
       [[],
        [\<lparr>id_commit = JStr ''c1'', message = JStr ''one'', repo = JStr ''b/y'',
           timestamp = Some 1704067200000\<rparr>,
         \<lparr>id_commit = JStr ''c2'', message = JStr ''two'', repo = JStr ''b/y'',
           timestamp = Some 1704240000000\<rparr>,
         \<lparr>id_commit = JStr ''c3'', message = JStr ''three'', repo = JStr ''b/y'',
           timestamp = Some 1704153600000\<rparr>]]) \<le> 25 \<and>
   sorted_wrt not_older (flattenedCommits
       [[],
        [\<lparr>id_commit = JStr ''c1'', message = JStr ''one'', repo = JStr ''b/y'',
           timestamp = Some 1704067200000\<rparr>,
         \<lparr>id_commit = JStr ''c2'', message = JStr ''two'', repo = JStr ''b/y'',
           timestamp = Some 1704240000000\<rparr>,
         \<lparr>id_commit = JStr ''c3'', message = JStr ''three'', repo = JStr ''b/y'',
           timestamp = Some 1704153600000\<rparr>]]) \<and>
   sorted_wrt newer (flattenedCommits
       [[],
        [\<lparr>id_commit = JStr ''c1'', message = JStr ''one'', repo = JStr ''b/y'',
           timestamp = Some 1704067200000\<rparr>,
         \<lparr>id_commit = JStr ''c2'', message = JStr ''two'', repo = JStr ''b/y'',
           timestamp = Some 1704240000000\<rparr>,
         \<lparr>id_commit = JStr ''c3'', message = JStr ''three'', repo = JStr ''b/y'',
           timestamp = Some 1704153600000\<rparr>]])"
proof -
  let ?all = "[[],
        [\<lparr>id_commit = JStr ''c1'', message = JStr ''one'', repo = JStr ''b/y'',
           timestamp = Some 1704067200000\<rparr>,
         \<lparr>id_commit = JStr ''c2'', message = JStr ''two'', repo = JStr ''b/y'',
           timestamp = Some 1704240000000\<rparr>,
         \<lparr>id_commit = JStr ''c3'', message = JStr ''three'', repo = JStr ''b/y'',
           timestamp = Some (1704153600000::int)\<rparr>]]"
  have c: "cycle_try env_partial = Inr (flattenedCommits ?all)"
    by code_simp
  have h: "valid_dates (concat ?all) \<and> distinct (map timestamp (concat ?all))"
    by (simp add: valid_dates_def)
  show ?thesis
    using c h flattenedCommits_bounded_sorted [of ?all] by blast
qed

text \<open>
  Claim C1 as stated fails: two repositories whose latest commits were made at the same
  instant give a list that is not strictly descending.
\<close>

theorem flattenedCommits_strict_counterexample:
  "cycle_try env_tie =
     Inr (flattenedCommits
       [[\<lparr>id_commit = JStr ''c1'', message = JStr ''fix'', repo = JStr ''a/x'',
           timestamp = Some 1704153600000\<rparr>],
        [\<lparr>id_commit = JStr ''c2'', message = JStr ''bump'', repo = JStr ''b/y'',
           timestamp = Some 1704153600000\<rparr>]]) \<and>
   \<not> sorted_wrt newer (flattenedCommits
       [[\<lparr>id_commit = JStr ''c1'', message = JStr ''fix'', repo = JStr ''a/x'',
           timestamp = Some 1704153600000\<rparr>],
        [\<lparr>id_commit = JStr ''c2'', message = JStr ''bump'', repo = JStr ''b/y'',
           timestamp = Some 1704153600000\<rparr>]])"
  by code_simp

subsection \<open>Failures of single repositories\<close>

lemma map_exn_all: "\<forall>x\<in>set xs. f x = Inr (g x) \<Longrightarrow> map_exn f xs = Inr (map g xs)"
  by (induction xs) (simp_all add: bind_exn_def)

lemma map_exn_append:
  "map_exn f (xs @ ys) =
     bind_exn (map_exn f xs) (\<lambda>a. bind_exn (map_exn f ys) (\<lambda>b. Inr (a @ b)))"
  by (induction xs) (auto simp: bind_exn_def split: sum.splits)

lemma map_exn_Inl: "x \<in> set xs \<Longrightarrow> f x = Inl a \<Longrightarrow> \<exists>b. map_exn f xs = Inl b"
  by (induction xs) (auto simp: bind_exn_def split: sum.splits)

lemma repo_fails_empty: "repo_fails e rp \<Longrightarrow> repo_commits e rp = Inr []"
  by (auto simp: repo_fails_def repo_commits_def repo_try_def repo_catch_def template_def
      bind_exn_def isl_def split: sum.splits outcome.splits body.splits if_splits)

lemma name_readable_fulfilled: "name_readable rp \<Longrightarrow> \<exists>cs. repo_commits e rp = Inr cs"
  by (auto simp: name_readable_def repo_commits_def repo_catch_def template_def
      bind_exn_def split: sum.splits)

text \<open>Every entry of the declared type \<open>GitHubRepo\<close> has a readable name.\<close>

lemma string_name_readable: "get_prop rp ''full_name'' = Inr (JStr n) \<Longrightarrow> name_readable rp"
  by (simp add: name_readable_def)

text \<open>
  An entry without a readable name: the \<open>try\<close> throws at line 65, the \<open>catch\<close> throws
  again at line 91, and the rejection ends the whole cycle in the outer \<open>catch\<close>.
\<close>

lemma unreadable_name_rejects: "\<not> name_readable rp \<Longrightarrow> \<exists>x. repo_commits e rp = Inl x"
  by (auto simp: name_readable_def repo_commits_def repo_try_def repo_catch_def template_def
      bind_exn_def split: sum.splits)

lemma unreadable_name_aborts_cycle:
  assumes "fetch e UserRepos = Response True status (Json (JArr rs))"
    and "rp \<in> set rs" and "\<not> name_readable rp"
  shows "\<exists>x. cycle_try e = Inl x"
proof -
  obtain x where "repo_commits e rp = Inl x"
    using unreadable_name_rejects [OF assms(3)] by blast
  then obtain b where "map_exn (repo_commits e) rs = Inl b"
    using map_exn_Inl [OF assms(2)] by blast
  then show ?thesis using assms(1) by (simp add: cycle_try_def bind_exn_def)
qed

lemma null_entry_aborts_cycle:
  "cycle_try env_null = Inl TypeError \<and>
   render (fetchCommits env_null (initial_state 0)) =
     Error_view ''Failed to load commit history''"
proof -
  have c: "cycle_try env_null = Inl TypeError"
    by code_simp
  show ?thesis
    using c by (simp add: fetchCommits_def fetch_settle_def fetch_begin_def render_def
        initial_state_def)
qed

lemma repo_commits_three:
  assumes "get_prop rp ''full_name'' = Inr n" and "\<not> conversion_throws n"
    and "fetch e (RepoCommits n) = Response True status (Json (JArr [j1, j2, j3]))"
    and "to_Commit e n j1 = Inr c1" "to_Commit e n j2 = Inr c2" "to_Commit e n j3 = Inr c3"
  shows "repo_commits e rp = Inr [c1, c2, c3]"
  using assms
  by (simp add: repo_commits_def repo_try_def template_def map_commits_def bind_exn_def)

lemma flattenedCommits_short:
  "length (concat xss) \<le> 25 \<Longrightarrow> flattenedCommits xss = js_sort (concat xss)"
  by (simp add: flattenedCommits_def length_js_sort)

lemma cycle_try_array:
  "fetch e UserRepos = Response True status (Json (JArr rs)) \<Longrightarrow>
   map_exn (repo_commits e) rs = Inr allCommits \<Longrightarrow>
   cycle_try e = Inr (flattenedCommits allCommits)"
  by (simp add: cycle_try_def bind_exn_def)

lemma cycle_try_readable:
  assumes "fetch e UserRepos = Response True status (Json (JArr rs))"
    and "list_all name_readable rs"
  shows "\<exists>cs. cycle_try e = Inr cs"
proof -
  have "\<forall>rp\<in>set rs. \<exists>cs. repo_commits e rp = Inr cs"
    using assms(2) by (auto simp: list_all_iff name_readable_fulfilled)
  then have "\<forall>rp\<in>set rs. repo_commits e rp = Inr (projr (repo_commits e rp))"
    by auto
  then have "map_exn (repo_commits e) rs = Inr (map (\<lambda>rp. projr (repo_commits e rp)) rs)"
    by (rule map_exn_all)
  then show ?thesis using cycle_try_array [OF assms(1)] by blast
qed

lemma fetchCommits_success:
  "cycle_try e = Inr cs \<Longrightarrow>
   fetchCommits e s = s\<lparr>isRefreshing := True, commits := cs, loading := False\<rparr>"
  by (simp add: fetchCommits_def fetch_settle_def fetch_begin_def)

lemma fetchCommits_failure:
  "cycle_try e = Inl x \<Longrightarrow>
   fetchCommits e s =
     s\<lparr>isRefreshing := True, error := Some ''Failed to load commit history'', loading := False\<rparr>"
  by (simp add: fetchCommits_def fetch_settle_def fetch_begin_def)

lemma concat_map_Nil: "concat (map (\<lambda>x. []) xs) = []"
  by (induction xs) simp_all

lemma one_repo_succeeds:
  assumes "fetch e UserRepos = Response True status (Json (JArr (pre @ B # post)))"
    and "list_all (repo_fails e) (pre @ post)"
    and "repo_commits e B = Inr cs" and "length cs \<le> 25"
  shows "cycle_try e = Inr (js_sort cs)"
proof -
  have p: "map_exn (repo_commits e) pre = Inr (map (\<lambda>rp. []) pre)"
    using assms(2) by (intro map_exn_all) (simp add: list_all_iff repo_fails_empty)
  have q: "map_exn (repo_commits e) post = Inr (map (\<lambda>rp. []) post)"
    using assms(2) by (intro map_exn_all) (simp add: list_all_iff repo_fails_empty)
  have "map_exn (repo_commits e) (pre @ B # post) =
      Inr (map (\<lambda>rp. []) pre @ cs # map (\<lambda>rp. []) post)"
    using p q assms(3) by (simp add: map_exn_append bind_exn_def)
  then have "cycle_try e = Inr (flattenedCommits (map (\<lambda>rp. []) pre @ cs # map (\<lambda>rp. []) post))"
    by (rule cycle_try_array [OF assms(1)])
  moreover have "concat (map (\<lambda>rp. []) pre @ cs # map (\<lambda>rp. []) post) = cs"
    by (simp add: concat_map_Nil)
  ultimately show ?thesis using assms(4) by (simp add: flattenedCommits_short)
qed

text \<open>
  Claim C2. The repository list holds repository \<open>B\<close>, whose commit fetch answers with
  three commits, and otherwise only repositories whose commit fetch fails (rejected
  request, non-success response, unparsable body, or an exception while the body is
  processed). Then the cycle ends in the success branch: the error state is left as it
  was, loading is over, and the list is made of exactly the three commits of \<open>B\<close>, in
  the order of the sort when their dates are valid. In any cycle a failing repository
  is fulfilled with the empty list, and a cycle whose repository list is an array of
  entries with a readable name reaches its result whatever the single repositories do.
\<close>

theorem failing_repo_contributes_nothing:
  "(fetch e UserRepos = Response True status (Json (JArr (pre @ B # post))) \<and>
    list_all (repo_fails e) (pre @ post) \<and>
    get_prop B ''full_name'' = Inr nb \<and> \<not> conversion_throws nb \<and>
    fetch e (RepoCommits nb) = Response True statusB (Json (JArr [j1, j2, j3])) \<and>
    to_Commit e nb j1 = Inr c1 \<and> to_Commit e nb j2 = Inr c2 \<and> to_Commit e nb j3 = Inr c3 \<longrightarrow>
      (\<exists>cs. cycle_try e = Inr cs \<and> mset cs = {#c1, c2, c3#}) \<and>
      mset (commits (fetchCommits e s)) = {#c1, c2, c3#} \<and>
      (valid_dates [c1, c2, c3] \<longrightarrow> commits (fetchCommits e s) = js_sort [c1, c2, c3]) \<and>
      error (fetchCommits e s) = error s \<and>
      \<not> loading (fetchCommits e s)) \<and>
   (repo_fails e rp \<longrightarrow> repo_commits e rp = Inr []) \<and>
   (fetch e UserRepos = Response True status (Json (JArr rs)) \<and> list_all name_readable rs \<longrightarrow>
      (\<exists>cs. cycle_try e = Inr cs) \<and>
      error (fetchCommits e s) = error s \<and>
      \<not> loading (fetchCommits e s))"
proof (intro conjI impI)
  assume a: "fetch e UserRepos = Response True status (Json (JArr (pre @ B # post))) \<and>
    list_all (repo_fails e) (pre @ post) \<and>
    get_prop B ''full_name'' = Inr nb \<and> \<not> conversion_throws nb \<and>
    fetch e (RepoCommits nb) = Response True statusB (Json (JArr [j1, j2, j3])) \<and>
    to_Commit e nb j1 = Inr c1 \<and> to_Commit e nb j2 = Inr c2 \<and> to_Commit e nb j3 = Inr c3"
  then have b: "repo_commits e B = Inr [c1, c2, c3]"
    using repo_commits_three [of B nb e statusB j1 j2 j3 c1 c2 c3] by blast
  have c: "cycle_try e = Inr (js_sort [c1, c2, c3])"
    using a b one_repo_succeeds [of e status pre B post "[c1, c2, c3]"] by simp
  have m: "mset (js_sort [c1, c2, c3]) = {#c1, c2, c3#}"
    by (simp add: mset_js_sort)
  show "\<exists>cs. cycle_try e = Inr cs \<and> mset cs = {#c1, c2, c3#}"
    using c m by simp
  show "mset (commits (fetchCommits e s)) = {#c1, c2, c3#}"
    using m by (simp add: fetchCommits_success [OF c])
  show "error (fetchCommits e s) = error s"
    by (simp add: fetchCommits_success [OF c])
  show "\<not> loading (fetchCommits e s)"
    by (simp add: fetchCommits_success [OF c])
  show "commits (fetchCommits e s) = js_sort [c1, c2, c3]"
    by (simp add: fetchCommits_success [OF c])
next
  assume "repo_fails e rp"
  then show "repo_commits e rp = Inr []"
    by (rule repo_fails_empty)
next
  assume a: "fetch e UserRepos = Response True status (Json (JArr rs)) \<and> list_all name_readable rs"
  then obtain cs where c: "cycle_try e = Inr cs"
    using cycle_try_readable [of e status rs] by blast
  show "\<exists>cs. cycle_try e = Inr cs"
    using c by simp
  show "error (fetchCommits e s) = error s"
    by (simp add: fetchCommits_success [OF c])
  show "\<not> loading (fetchCommits e s)"
    by (simp add: fetchCommits_success [OF c])
qed

theorem failing_repo_contributes_nothing_witness:
  "fetch env_partial UserRepos =
     Response True 200 (Json (JArr ([gh_repo ''a/x''] @ gh_repo ''b/y'' # []))) \<and>
   list_all (repo_fails env_partial) ([gh_repo ''a/x''] @ []) \<and>
   list_all name_readable [gh_repo ''a/x'', gh_repo ''b/y''] \<and>
   repo_commits env_partial (gh_repo ''a/x'') = Inr [] \<and>
   commits (fetchCommits env_partial (initial_state 0)) =
     [\<lparr>id_commit = JStr ''c2'', message = JStr ''two'', repo = JStr ''b/y'',
        timestamp = Some 1704240000000\<rparr>,
      \<lparr>id_commit = JStr ''c3'', message = JStr ''three'', repo = JStr ''b/y'',
        timestamp = Some 1704153600000\<rparr>,
      \<lparr>id_commit = JStr ''c1'', message = JStr ''one'', repo = JStr ''b/y'',
        timestamp = Some 1704067200000\<rparr>] \<and>
   error (fetchCommits env_partial (initial_state 0)) = None \<and>
   \<not> loading (fetchCommits env_partial (initial_state 0))"
proof -
  let ?c1 = "\<lparr>id_commit = JStr ''c1'', message = JStr ''one'', repo = JStr ''b/y'',
        timestamp = Some 1704067200000\<rparr>"
  let ?c2 = "\<lparr>id_commit = JStr ''c2'', message = JStr ''two'', repo = JStr ''b/y'',
        timestamp = Some 1704240000000\<rparr>"
  let ?c3 = "\<lparr>id_commit = JStr ''c3'', message = JStr ''three'', repo = JStr ''b/y'',
        timestamp = Some 1704153600000\<rparr>"
  have h1: "fetch env_partial UserRepos =
      Response True 200 (Json (JArr ([gh_repo ''a/x''] @ gh_repo ''b/y'' # [])))"
    by (simp add: env_partial_def api_def ok_json_def)
  have h2: "list_all (repo_fails env_partial) ([gh_repo ''a/x''] @ [])"
    by code_simp
  have h3: "get_prop (gh_repo ''b/y'') ''full_name'' = Inr (JStr ''b/y'')"
    by code_simp
  have h4: "\<not> conversion_throws (JStr ''b/y'')"
    by simp
  have h5: "fetch env_partial (RepoCommits (JStr ''b/y'')) =
      Response True 200 (Json (JArr
           [gh_commit ''c1'' ''one'' ''2024-01-01T00:00:00Z'',
            gh_commit ''c2'' ''two'' ''2024-01-03T00:00:00Z'',
            gh_commit ''c3'' ''three'' ''2024-01-02T00:00:00Z'']))"
    by (simp add: env_partial_def api_def ok_json_def)
  have h6: "to_Commit env_partial (JStr ''b/y'')
      (gh_commit ''c1'' ''one'' ''2024-01-01T00:00:00Z'') = Inr ?c1"
    by code_simp
  have h7: "to_Commit env_partial (JStr ''b/y'')
      (gh_commit ''c2'' ''two'' ''2024-01-03T00:00:00Z'') = Inr ?c2"
    by code_simp
  have h8: "to_Commit env_partial (JStr ''b/y'')
      (gh_commit ''c3'' ''three'' ''2024-01-02T00:00:00Z'') = Inr ?c3"
    by code_simp
  have h9: "valid_dates [?c1, ?c2, ?c3]"
    by (simp add: valid_dates_def)
  have h10: "repo_fails env_partial (gh_repo ''a/x'')"
    using h2 by simp
  have h11: "list_all name_readable [gh_repo ''a/x'', gh_repo ''b/y'']"
    by code_simp
  have s: "js_sort [?c1, ?c2, ?c3] = [?c2, ?c3, ?c1]"
    by code_simp
  have i: "error (initial_state 0) = None"
    by (simp add: initial_state_def)
  have t: "(fetch env_partial UserRepos =
      Response True 200 (Json (JArr ([gh_repo ''a/x''] @ gh_repo ''b/y'' # []))) \<and>
    list_all (repo_fails env_partial) ([gh_repo ''a/x''] @ []) \<and>
    get_prop (gh_repo ''b/y'') ''full_name'' = Inr (JStr ''b/y'') \<and>
    \<not> conversion_throws (JStr ''b/y'') \<and>
    fetch env_partial (RepoCommits (JStr ''b/y'')) =
      Response True 200 (Json (JArr
           [gh_commit ''c1'' ''one'' ''2024-01-01T00:00:00Z'',
            gh_commit ''c2'' ''two'' ''2024-01-03T00:00:00Z'',
            gh_commit ''c3'' ''three'' ''2024-01-02T00:00:00Z''])) \<and>
    to_Commit env_partial (JStr ''b/y'')
      (gh_commit ''c1'' ''one'' ''2024-01-01T00:00:00Z'') = Inr ?c1 \<and>
    to_Commit env_partial (JStr ''b/y'')
      (gh_commit ''c2'' ''two'' ''2024-01-03T00:00:00Z'') = Inr ?c2 \<and>
    to_Commit env_partial (JStr ''b/y'')
      (gh_commit ''c3'' ''three'' ''2024-01-02T00:00:00Z'') = Inr ?c3)"
    using h1 h2 h3 h4 h5 h6 h7 h8 by blast
  have r: "commits (fetchCommits env_partial (initial_state 0)) = js_sort [?c1, ?c2, ?c3] \<and>
      error (fetchCommits env_partial (initial_state 0)) = error (initial_state 0) \<and>
      \<not> loading (fetchCommits env_partial (initial_state 0)) \<and>
      repo_commits env_partial (gh_repo ''a/x'') = Inr []"
    using t h9 h10
      failing_repo_contributes_nothing [of env_partial 200 "[gh_repo ''a/x'']" "gh_repo ''b/y''"
        "[]" "JStr ''b/y''" 200 "gh_commit ''c1'' ''one'' ''2024-01-01T00:00:00Z''"
        "gh_commit ''c2'' ''two'' ''2024-01-03T00:00:00Z''"
        "gh_commit ''c3'' ''three'' ''2024-01-02T00:00:00Z''" ?c1 ?c2 ?c3
        "initial_state 0" "gh_repo ''a/x''" "[gh_repo ''a/x'', gh_repo ''b/y'']"]
    by blast
  show ?thesis
    using r h1 h2 h11 s i by simp
qed

subsection \<open>A repository list that is not an array\<close>

text \<open>
  Claim C3. When the repository list arrives with a success status and a body that
  parses to something other than an array, the cycle throws before any commit is asked
  for; the component then shows the error view with the fixed message and no commit
  entry.
\<close>

theorem non_array_repos_error_view:
  assumes "fetch e UserRepos = Response True status (Json v)"
    and "\<not> isArray v"
  shows "cycle_try e = Inl NotAnArray \<and>
         error (fetchCommits e s) = Some ''Failed to load commit history'' \<and>
         \<not> loading (fetchCommits e s) \<and>
         render (fetchCommits e s) = Error_view ''Failed to load commit history'' \<and>
         rendered_commits (fetchCommits e s) = []"
proof -
  have c: "cycle_try e = Inl NotAnArray"
    using assms by (simp add: cycle_try_def)
  have r: "render (fetchCommits e s) = Error_view ''Failed to load commit history''"
    by (simp add: fetchCommits_failure [OF c] render_def)
  show ?thesis
    using c r by (simp add: fetchCommits_failure [OF c] rendered_commits_def)
qed

theorem non_array_repos_error_view_witness:
  "fetch env_object UserRepos =
     Response True 200 (Json (JObj [(''message'', JStr ''Bad credentials'')])) \<and>
   \<not> isArray (JObj [(''message'', JStr ''Bad credentials'')]) \<and>
   render (fetchCommits env_object (initial_state 0)) =
     Error_view ''Failed to load commit history'' \<and>
   rendered_commits (fetchCommits env_object (initial_state 0)) = []"
proof -
  have h1: "fetch env_object UserRepos =
      Response True 200 (Json (JObj [(''message'', JStr ''Bad credentials'')]))"
    by (simp add: env_object_def api_def ok_json_def)
  have h2: "\<not> isArray (JObj [(''message'', JStr ''Bad credentials'')])"
    by simp
  show ?thesis
    using non_array_repos_error_view [OF h1 h2, of "initial_state 0"] h1 h2 by simp
qed

subsection \<open>The error state after a later success\<close>

text \<open>
  A cycle that succeeds stores the new list and ends loading, and it leaves \<open>error\<close>
  as it was: no path of the code writes \<open>null\<close> to it again.
\<close>

lemma successful_cycle_keeps_error:
  "cycle_try e = Inr cs \<Longrightarrow>
   commits (fetchCommits e s) = cs \<and> \<not> loading (fetchCommits e s) \<and>
   error (fetchCommits e s) = error s"
  by (simp add: fetchCommits_success)

text \<open>
  Claim C4 at a concrete input. The first cycle fails with status 500, the second one
  succeeds with one commit. The commit is stored, but the component still shows the
  error view and none of the commits.
\<close>

theorem error_view_after_successful_cycle:
  "cycle_try env_down = Inl (StatusError 500) \<and>
   cycle_try env_up =
     Inr [\<lparr>id_commit = JStr ''c1'', message = JStr ''fix'', repo = JStr ''a/x'',
           timestamp = Some 1704153600000\<rparr>] \<and>
   commits (fetchCommits env_up (fetchCommits env_down (initial_state 0))) =
     [\<lparr>id_commit = JStr ''c1'', message = JStr ''fix'', repo = JStr ''a/x'',
        timestamp = Some 1704153600000\<rparr>] \<and>
   error (fetchCommits env_up (fetchCommits env_down (initial_state 0))) =
     Some ''Failed to load commit history'' \<and>
   render (fetchCommits env_up (fetchCommits env_down (initial_state 0))) =
     Error_view ''Failed to load commit history'' \<and>
   rendered_commits (fetchCommits env_up (fetchCommits env_down (initial_state 0))) = []"
proof -
  have d: "cycle_try env_down = Inl (StatusError 500)"
    by code_simp
  have u: "cycle_try env_up =
     Inr [\<lparr>id_commit = JStr ''c1'', message = JStr ''fix'', repo = JStr ''a/x'',
           timestamp = Some 1704153600000\<rparr>]"
    by code_simp
  show ?thesis
    using d u
    by (simp add: fetchCommits_success [OF u] fetchCommits_failure [OF d]
        render_def rendered_commits_def initial_state_def)
qed

subsection \<open>Clicks\<close>

lemma render_cases:
  "render s = Loading_view \<or> (\<exists>m. render s = Error_view m) \<or>
   render s = Minimized_view \<or> render s = Normal_view"
  by (cases "render s") auto

lemma click_Backdrop:
  "render s = Loading_view \<or> render s = Normal_view \<Longrightarrow>
   handle_event onClose s (Click Backdrop) = (s, handleClose onClose)"
  by (auto simp: handle_event_def run_handler_def handleClickOutside_def handleClose_def
      split: option.splits)

lemma click_CloseButton:
  "render s = Loading_view \<or> render s = Normal_view \<Longrightarrow>
   handle_event onClose s (Click CloseButton) = (s, handleClose onClose)"
  by (auto simp: handle_event_def run_handler_def handleClickOutside_def handleClose_def
      split: option.splits)

lemma click_FullscreenButton:
  "render s = Normal_view \<Longrightarrow>
   handle_event onClose s (Click FullscreenButton) = (s\<lparr>isFullscreen := \<not> isFullscreen s\<rparr>, [])"
  by (auto simp: handle_event_def run_handler_def handleClickOutside_def
      split: option.splits)

lemma click_Chip:
  "render s = Minimized_view \<Longrightarrow>
   handle_event onClose s (Click Chip) = (s\<lparr>isMinimized := False\<rparr>, [])"
  by (simp add: handle_event_def run_handler_def)

lemma click_inside:
  "el \<in> {Panel, TitleBar, ContentArea} \<Longrightarrow> handle_event onClose s (Click el) = (s, [])"
  using render_cases [of s]
  by (auto simp: handle_event_def run_handler_def handleClickOutside_def
      split: option.splits)

lemma click_Error_view:
  "render s = Error_view m \<Longrightarrow> handle_event onClose s (Click el) = (s, [])"
  by (cases el) (simp_all add: handle_event_def)

lemma click_Loading_FullscreenButton:
  "render s = Loading_view \<Longrightarrow> handle_event onClose s (Click FullscreenButton) = (s, [])"
  by (simp add: handle_event_def)

lemma click_absent:
  "\<not> present (render s) el \<Longrightarrow> handle_event onClose s (Click el) = (s, [])"
  by (simp add: handle_event_def)

lemma keydown_state: "fst (handle_event onClose s (KeyDown key)) = s"
  by (simp add: handle_event_def)

lemma render_isFullscreen_update: "render (s\<lparr>isFullscreen := b\<rparr>) = render s"
  by (simp add: render_def)

text \<open>No handler sets \<open>isMinimized\<close>: the source never calls \<open>setIsMinimized(true)\<close>.\<close>

lemma user_event_never_minimizes:
  assumes m: "isMinimized (fst (handle_event onClose s ev))"
  shows "isMinimized s"
proof (cases ev)
  case (KeyDown key)
  then show ?thesis using m keydown_state [of onClose s key] by simp
next
  case (Click el)
  consider "render s = Loading_view" | m where "render s = Error_view m"
    | "render s = Minimized_view" | "render s = Normal_view"
    using render_cases [of s] by blast
  then show ?thesis
  proof cases
    case 1
    then show ?thesis using m Click
      by (cases el)
        (simp_all add: click_Backdrop click_CloseButton click_inside
          click_Loading_FullscreenButton click_absent)
  next
    case 2
    then show ?thesis using m Click by (simp add: click_Error_view)
  next
    case 3
    then show ?thesis using m Click
      by (cases el) (simp_all add: click_Chip click_absent)
  next
    case 4
    then show ?thesis using m Click
      by (cases el)
        (simp_all add: click_Backdrop click_CloseButton click_inside
          click_FullscreenButton click_absent)
  qed
qed


subsection \<open>Minimized, normal and fullscreen\<close>




subsection \<open>Dismissal\<close>

text \<open>
  Claim C6, as the code has it. With a callback supplied, the Escape key invokes it
  exactly once in every view. In the loading view and in the normal view a click on the
  close glyph and a click on the backdrop outside the panel each invoke it exactly once.
  None of these events changes the state of the component.
\<close>

theorem dismissal_invokes_callback_once:
  "handle_event (Some cb) s (KeyDown ''Escape'') = (s, [cb]) \<and>
   (render s = Loading_view \<or> render s = Normal_view \<longrightarrow>
      handle_event (Some cb) s (Click CloseButton) = (s, [cb]) \<and>
      handle_event (Some cb) s (Click Backdrop) = (s, [cb]))"
  by (simp add: click_Backdrop click_CloseButton handleClose_def)
    (simp add: handle_event_def handleEscapeKey_def)

theorem dismissal_invokes_callback_once_witness:
  "render (initial_state 0) = Loading_view \<and>
   handle_event (Some ()) (initial_state 0) (KeyDown ''Escape'') = (initial_state 0, [()]) \<and>
   handle_event (Some ()) (initial_state 0) (Click CloseButton) = (initial_state 0, [()]) \<and>
   handle_event (Some ()) (initial_state 0) (Click Backdrop) = (initial_state 0, [()])"
proof -
  have h: "render (initial_state 0) = Loading_view"
    by (simp add: render_def initial_state_def)
  show ?thesis
    using h dismissal_invokes_callback_once [of "()" "initial_state 0"] by simp
qed

text \<open>
  Claim C6 as stated fails: in the error view a click outside the panel invokes
  nothing.
\<close>

theorem click_outside_in_error_view_counterexample:
  "render (fetchCommits env_down (initial_state 0)) =
     Error_view ''Failed to load commit history'' \<and>
   snd (handle_event (Some ()) (fetchCommits env_down (initial_state 0)) (Click Backdrop)) = []"
proof -
  have d: "cycle_try env_down = Inl (StatusError 500)"
    by code_simp
  have r: "render (fetchCommits env_down (initial_state 0)) =
     Error_view ''Failed to load commit history''"
    by (simp add: fetchCommits_failure [OF d] render_def initial_state_def)
  show ?thesis
    using r by (simp add: click_Error_view)
qed

subsection \<open>The click-outside handler\<close>

text \<open>
  Claim C9. \<open>handleClickOutside\<close> invokes the callback only when one is supplied and
  the target of the click is the element the handler is attached to. It is attached to
  the backdrop only, so a click on the panel, the title bar, the content area or the
  fullscreen button invokes nothing, and on the close glyph the only invocation is that
  of \<open>handleClose\<close>. Without a callback no user event invokes anything.
\<close>

theorem click_outside_only_on_backdrop:
  "(handleClickOutside onClose target currentTarget \<noteq> [] \<longrightarrow>
      target = currentTarget \<and> onClose \<noteq> None) \<and>
   (target = currentTarget \<longrightarrow> handleClickOutside (Some cb) target currentTarget = [cb]) \<and>
   (el \<in> {Panel, TitleBar, ContentArea, FullscreenButton} \<longrightarrow>
      snd (handle_event onClose s (Click el)) = []) \<and>
   snd (handle_event onClose s (Click CloseButton)) =
     (if render s = Loading_view \<or> render s = Normal_view then handleClose onClose else []) \<and>
   snd (handle_event None s ev) = []"
proof (intro conjI impI)
  assume "handleClickOutside onClose target currentTarget \<noteq> []"
  then show "target = currentTarget" "onClose \<noteq> None"
    by (auto simp: handleClickOutside_def split: option.splits if_splits)
next
  assume "target = currentTarget"
  then show "handleClickOutside (Some cb) target currentTarget = [cb]"
    by (simp add: handleClickOutside_def)
next
  assume e: "el \<in> {Panel, TitleBar, ContentArea, FullscreenButton}"
  show "snd (handle_event onClose s (Click el)) = []"
  proof (cases "el = FullscreenButton")
    case False
    then show ?thesis using e by (simp add: click_inside)
  next
    case True
    consider "render s = Loading_view" | m where "render s = Error_view m"
      | "render s = Minimized_view" | "render s = Normal_view"
      using render_cases [of s] by blast
    then show ?thesis using True
      by cases (simp_all add: click_Loading_FullscreenButton click_Error_view
          click_absent click_FullscreenButton)
  qed
next
  show "snd (handle_event onClose s (Click CloseButton)) =
     (if render s = Loading_view \<or> render s = Normal_view then handleClose onClose else [])"
  proof (cases "render s = Loading_view \<or> render s = Normal_view")
    case True
    then show ?thesis by (simp add: click_CloseButton)
  next
    case False
    then have "\<not> present (render s) CloseButton"
      using render_cases [of s] by auto
    then show ?thesis using False by (simp add: click_absent)
  qed
next
  show "snd (handle_event None s ev) = []"
  proof (cases ev)
    case (KeyDown key)
    then show ?thesis by (simp add: handle_event_def handleEscapeKey_def)
  next
    case (Click x)
    consider "render s = Loading_view" | m where "render s = Error_view m"
      | "render s = Minimized_view" | "render s = Normal_view"
      using render_cases [of s] by blast
    then show ?thesis
    proof cases
      case 1
      then show ?thesis using Click
        by (cases x)
          (simp_all add: click_Backdrop click_CloseButton click_inside
            click_Loading_FullscreenButton click_absent handleClose_def)
    next
      case 2
      then show ?thesis using Click by (simp add: click_Error_view)
    next
      case 3
      then show ?thesis using Click
        by (cases x) (simp_all add: click_Chip click_absent)
    next
      case 4
      then show ?thesis using Click
        by (cases x)
          (simp_all add: click_Backdrop click_CloseButton click_inside
            click_FullscreenButton click_absent handleClose_def)
    qed
  qed
qed

theorem click_outside_only_on_backdrop_witness:
  "handleClickOutside (Some ()) Backdrop Backdrop = [()] \<and>
   handleClickOutside (Some ()) Panel Backdrop = [] \<and>
   Panel \<in> {Panel, TitleBar, ContentArea, FullscreenButton} \<and>
   snd (handle_event (Some ()) (initial_state 0) (Click Panel)) = []"
proof -
  have h: "Panel \<in> {Panel, TitleBar, ContentArea, FullscreenButton}"
    by simp
  have n: "Panel \<noteq> Backdrop"
    by simp
  show ?thesis
    using h n
      click_outside_only_on_backdrop [of "Some ()" Backdrop Backdrop "()" Panel "initial_state 0"]
      click_outside_only_on_backdrop [of "Some ()" Panel Backdrop "()" Panel "initial_state 0"]
    by auto
qed

subsection \<open>Dismissal in the error view\<close>

text \<open>
  Claim C10. The error view has no close glyph and no element with a click handler, so
  no click invokes the callback or changes the state; the Escape key still invokes the
  callback.
\<close>

theorem error_view_only_escape:
  assumes "render s = Error_view m"
  shows "\<not> present (render s) CloseButton \<and>
         (\<forall>el. onClick (render s) el = None) \<and>
         (\<forall>el. handle_event (Some cb) s (Click el) = (s, [])) \<and>
         handle_event (Some cb) s (KeyDown ''Escape'') = (s, [cb])"
  using assms
  by (simp add: click_Error_view) (simp add: handle_event_def handleEscapeKey_def)

theorem error_view_only_escape_witness:
  "render (fetchCommits env_down (initial_state 0)) =
     Error_view ''Failed to load commit history'' \<and>
   handle_event (Some ()) (fetchCommits env_down (initial_state 0)) (Click ContentArea) =
     (fetchCommits env_down (initial_state 0), []) \<and>
   handle_event (Some ()) (fetchCommits env_down (initial_state 0)) (KeyDown ''Escape'') =
     (fetchCommits env_down (initial_state 0), [()])"
proof -
  have d: "cycle_try env_down = Inl (StatusError 500)"
    by code_simp
  have r: "render (fetchCommits env_down (initial_state 0)) =
     Error_view ''Failed to load commit history''"
    by (simp add: fetchCommits_failure [OF d] render_def initial_state_def)
  show ?thesis
    using r error_view_only_escape [OF r, of "()"] by simp
qed

subsection \<open>The scroll lock\<close>

lemma fullscreen_effect_overflow:
  "fullscreen_effect fs sty (''body'', ''overflow'') = Some (if fs then ''hidden'' else ''auto'')"
  by (simp add: fullscreen_effect_def)

lemma fullscreen_effect_frame:
  "k \<noteq> (''body'', ''overflow'') \<Longrightarrow> fullscreen_effect fs sty k = sty k"
  by (simp add: fullscreen_effect_def)

lemma fullscreen_cleanup_frame:
  "k \<noteq> (''body'', ''overflow'') \<Longrightarrow> fullscreen_cleanup sty k = sty k"
  by (simp add: fullscreen_cleanup_def)

lemma effect_on_update_frame:
  "k \<noteq> (''body'', ''overflow'') \<Longrightarrow> effect_on_update old new sty k = sty k"
  by (simp add: effect_on_update_def fullscreen_effect_frame fullscreen_cleanup_frame)

lemma user_step_click_FullscreenButton:
  "render s = Normal_view \<Longrightarrow>
   user_step onClose (s, sty) (Click FullscreenButton) =
     ((s\<lparr>isFullscreen := \<not> isFullscreen s\<rparr>,
       fullscreen_effect (\<not> isFullscreen s) (fullscreen_cleanup sty)), [])"
  by (simp add: user_step_def click_FullscreenButton effect_on_update_def)

text \<open>
  Claim C7. In the normal view the click that enters fullscreen leaves
  \<open>document.body.style.overflow\<close> at \<open>hidden\<close>, the click that leaves fullscreen leaves
  it at \<open>auto\<close>, and so does the unmount. The effect, at mount, after any user event and
  at unmount, writes no other style of the document.
\<close>

theorem fullscreen_scroll_lock:
  "(render s = Normal_view \<and> \<not> isFullscreen s \<longrightarrow>
      isFullscreen (fst (fst (user_step onClose (s, sty) (Click FullscreenButton)))) \<and>
      snd (fst (user_step onClose (s, sty) (Click FullscreenButton))) (''body'', ''overflow'') =
        Some ''hidden'') \<and>
   (render s = Normal_view \<and> isFullscreen s \<longrightarrow>
      \<not> isFullscreen (fst (fst (user_step onClose (s, sty) (Click FullscreenButton)))) \<and>
      snd (fst (user_step onClose (s, sty) (Click FullscreenButton))) (''body'', ''overflow'') =
        Some ''auto'') \<and>
   effect_on_unmount sty (''body'', ''overflow'') = Some ''auto'' \<and>
   (k \<noteq> (''body'', ''overflow'') \<longrightarrow>
      effect_on_mount s sty k = sty k \<and>
      snd (fst (user_step onClose (s, sty) ev)) k = sty k \<and>
      effect_on_unmount sty k = sty k)"
proof (intro conjI impI)
  assume a: "render s = Normal_view \<and> \<not> isFullscreen s"
  then show "isFullscreen (fst (fst (user_step onClose (s, sty) (Click FullscreenButton))))"
    by (simp add: user_step_click_FullscreenButton)
  show "snd (fst (user_step onClose (s, sty) (Click FullscreenButton))) (''body'', ''overflow'') =
        Some ''hidden''"
    using a by (simp add: user_step_click_FullscreenButton fullscreen_effect_overflow)
next
  assume a: "render s = Normal_view \<and> isFullscreen s"
  then show "\<not> isFullscreen (fst (fst (user_step onClose (s, sty) (Click FullscreenButton))))"
    by (simp add: user_step_click_FullscreenButton)
  show "snd (fst (user_step onClose (s, sty) (Click FullscreenButton))) (''body'', ''overflow'') =
        Some ''auto''"
    using a by (simp add: user_step_click_FullscreenButton fullscreen_effect_overflow)
next
  show "effect_on_unmount sty (''body'', ''overflow'') = Some ''auto''"
    by (simp add: effect_on_unmount_def fullscreen_cleanup_def)
next
  assume k: "k \<noteq> (''body'', ''overflow'')"
  then show "effect_on_mount s sty k = sty k"
    by (simp add: effect_on_mount_def fullscreen_effect_frame)
  show "snd (fst (user_step onClose (s, sty) ev)) k = sty k"
    using k by (simp add: user_step_def effect_on_update_frame split: prod.splits)
  show "effect_on_unmount sty k = sty k"
    using k by (simp add: effect_on_unmount_def fullscreen_cleanup_frame)
qed

theorem fullscreen_scroll_lock_witness:
  "render (fetchCommits env_up (initial_state 0)) = Normal_view \<and>
   \<not> isFullscreen (fetchCommits env_up (initial_state 0)) \<and>
   snd (fst (user_step (Some ())
     (fetchCommits env_up (initial_state 0), [(''body'', ''margin'') \<mapsto> ''0''])
     (Click FullscreenButton))) (''body'', ''overflow'') = Some ''hidden'' \<and>
   render ((fetchCommits env_up (initial_state 0))\<lparr>isFullscreen := True\<rparr>) = Normal_view \<and>
   snd (fst (user_step (Some ())
     ((fetchCommits env_up (initial_state 0))\<lparr>isFullscreen := True\<rparr>,
      [(''body'', ''margin'') \<mapsto> ''0'', (''body'', ''overflow'') \<mapsto> ''hidden''])
     (Click FullscreenButton))) (''body'', ''overflow'') = Some ''auto'' \<and>
   (''body'', ''margin'') \<noteq> (''body'', ''overflow'') \<and>
   snd (fst (user_step (Some ())
     (fetchCommits env_up (initial_state 0), [(''body'', ''margin'') \<mapsto> ''0''])
     (Click FullscreenButton))) (''body'', ''margin'') = Some ''0''"
proof -
  have u: "cycle_try env_up =
     Inr [\<lparr>id_commit = JStr ''c1'', message = JStr ''fix'', repo = JStr ''a/x'',
           timestamp = Some 1704153600000\<rparr>]"
    by code_simp
  have h1: "render (fetchCommits env_up (initial_state 0)) = Normal_view"
    by (simp add: fetchCommits_success [OF u] render_def initial_state_def)
  have h2: "\<not> isFullscreen (fetchCommits env_up (initial_state 0))"
    by (simp add: fetchCommits_success [OF u] initial_state_def)
  have h3: "render ((fetchCommits env_up (initial_state 0))\<lparr>isFullscreen := True\<rparr>) = Normal_view"
    using h1 by (simp add: render_isFullscreen_update)
  have h4: "(''body'', ''margin'') \<noteq> (''body'', ''overflow'')"
    by simp
  show ?thesis
    using h1 h2 h3 h4
      fullscreen_scroll_lock [of "fetchCommits env_up (initial_state 0)" "Some ()"
        "[(''body'', ''margin'') \<mapsto> ''0'']" "(''body'', ''margin'')" "Click FullscreenButton"]
      fullscreen_scroll_lock [of "(fetchCommits env_up (initial_state 0))\<lparr>isFullscreen := True\<rparr>"
        "Some ()" "[(''body'', ''margin'') \<mapsto> ''0'', (''body'', ''overflow'') \<mapsto> ''hidden'']"
        "(''body'', ''margin'')" "Click FullscreenButton"]
    by simp
qed

subsection \<open>The blink timer\<close>

lemma blink_part_fire_other:
  "\<not> blinkish tm \<Longrightarrow>
   blink_part (fire net tm pg) = blink_part pg \<and> clock (fire net tm pg) = clock pg"
  by (cases "job tm")
    (auto simp: blinkish_def blink_part_def fire_def run_job_def start_fetch_def
      fetch_begin_def Let_def split: option.splits)

lemma blink_part_fire_blink:
  "blinkish tm \<Longrightarrow>
   blink_part (fire net tm pg) = blink_fire (clock pg) (blink_part pg) tm \<and>
   clock (fire net tm pg) = clock pg"
  by (cases "job tm")
    (auto simp: blinkish_def blink_part_def blink_fire_def fire_def run_job_def
      setTimeout_def Let_def split: option.splits)

lemma blink_part_foldl_fire:
  "blink_part (foldl (\<lambda>p tm. fire net tm p) pg tms) =
     foldl (blink_fire (clock pg)) (blink_part pg) (filter blinkish tms) \<and>
   clock (foldl (\<lambda>p tm. fire net tm p) pg tms) = clock pg"
proof (induction tms arbitrary: pg)
  case Nil
  then show ?case by simp
next
  case (Cons tm tms)
  show ?case
  proof (cases "blinkish tm")
    case True
    then show ?thesis
      using Cons [of "fire net tm pg"] blink_part_fire_blink [of tm net pg] by simp
  next
    case False
    then show ?thesis
      using Cons [of "fire net tm pg"] blink_part_fire_other [of tm net pg] by simp
  qed
qed

lemma blink_part_finish_fetch:
  "blink_part (finish_fetch r pg) = blink_part pg \<and> clock (finish_fetch r pg) = clock pg"
  by (auto simp: blink_part_def finish_fetch_def setTimeout_def fetch_settle_def blinkish_def
      split: sum.splits)

lemma blink_part_foldl_finish:
  "blink_part (foldl (\<lambda>p a. finish_fetch (snd a) p) pg as) = blink_part pg \<and>
   clock (foldl (\<lambda>p a. finish_fetch (snd a) p) pg as) = clock pg"
proof (induction as arbitrary: pg)
  case Nil
  then show ?case by simp
next
  case (Cons a as)
  then show ?case
    using Cons [of "finish_fetch (snd a) pg"] blink_part_finish_fetch [of "snd a" pg] by simp
qed

lemma blink_part_inflight: "blink_part (pg\<lparr>inflight := x\<rparr>) = blink_part pg"
  by (simp add: blink_part_def)

text \<open>One millisecond, seen from the blink indicator: the network plays no part.\<close>

lemma blink_part_tick:
  assumes "blink_part pg = (b, l, ts)"
  shows "blink_part (tick net pg) =
           foldl (blink_fire (clock pg + 1))
             (b, l, filter (\<lambda>tm. \<not> due tm \<le> clock pg + 1) ts)
             (filter (\<lambda>tm. due tm \<le> clock pg + 1) ts) \<and>
         clock (tick net pg) = clock pg + 1"
proof -
  let ?c = "clock pg + 1"
  let ?pg2 = "pg\<lparr>clock := ?c, timers := filter (\<lambda>tm. \<not> due tm \<le> ?c) (timers pg)\<rparr>"
  let ?ready = "filter (\<lambda>tm. due tm \<le> ?c) (timers pg)"
  let ?pg3 = "foldl (\<lambda>p tm. fire net tm p) ?pg2 ?ready"
  have ts: "ts = filter blinkish (timers pg)" "b = isBlinking (widget pg)"
    "l = lastUpdated (widget pg)"
    using assms by (simp_all add: blink_part_def)
  have p2: "blink_part ?pg2 = (b, l, filter (\<lambda>tm. \<not> due tm \<le> ?c) ts)"
    by (simp add: blink_part_def ts) (metis (mono_tags, lifting) filter_cong)
  have r: "filter blinkish ?ready = filter (\<lambda>tm. due tm \<le> ?c) ts"
    by (simp add: ts) (metis (mono_tags, lifting) filter_cong)
  have p3: "blink_part ?pg3 =
      foldl (blink_fire ?c) (b, l, filter (\<lambda>tm. \<not> due tm \<le> ?c) ts)
        (filter (\<lambda>tm. due tm \<le> ?c) ts) \<and> clock ?pg3 = ?c"
    using blink_part_foldl_fire [of net ?pg2 ?ready] p2 r by simp
  have t: "tick net pg =
      foldl (\<lambda>p a. finish_fetch (snd a) p)
        (?pg3\<lparr>inflight := filter (\<lambda>a. \<not> fst a \<le> clock ?pg3) (inflight ?pg3)\<rparr>)
        (filter (\<lambda>a. fst a \<le> clock ?pg3) (inflight ?pg3))"
    by (simp add: tick_def Let_def)
  show ?thesis
    unfolding t using p3
    by (simp add: blink_part_foldl_finish blink_part_inflight)
qed

lemma blink_part_mount:
  "blink_part (mount net t0) =
     (False, t0, [\<lparr>due = t0 + 3000, period = Some 3000, job = RunBlink\<rparr>]) \<and>
   clock (mount net t0) = t0"
  by (auto simp: mount_def setInterval_def start_fetch_def fetch_begin_def blink_part_def
      blinkish_def initial_state_def Let_def split: option.splits)

text \<open>The blink part \<open>3000 * k + r\<close> milliseconds after the mount, for \<open>r < 3000\<close>.\<close>

lemma blink_part_advance:
  "r < 3000 \<Longrightarrow>
   blink_part (advance net (3000 * k + r) (mount net t0)) =
     (0 < k \<and> r < 1000,
      if k = 0 then t0 else t0 + 3000 * int k,
      \<lparr>due = t0 + 3000 * int k + 3000, period = Some 3000, job = RunBlink\<rparr> #
      (if 0 < k \<and> r < 1000
       then [\<lparr>due = t0 + 3000 * int k + 1000, period = None, job = BlinkOff\<rparr>] else [])) \<and>
   clock (advance net (3000 * k + r) (mount net t0)) = t0 + int (3000 * k + r)"
proof (induction "3000 * k + r" arbitrary: k r)
  case 0
  then show ?case by (simp add: blink_part_mount)
next
  case (Suc n)
  show ?case
  proof (cases r)
    case 0
    then obtain j where k: "k = Suc j" using Suc.hyps(2) by (cases k) auto
    then have n: "n = 3000 * j + 2999" using Suc.hyps(2) 0 by simp
    have ih: "blink_part (advance net n (mount net t0)) =
        (False, if j = 0 then t0 else t0 + 3000 * int j,
         [\<lparr>due = t0 + 3000 * int j + 3000, period = Some 3000, job = RunBlink\<rparr>]) \<and>
        clock (advance net n (mount net t0)) = t0 + int n"
      using Suc.hyps(1) [of j 2999] n by simp
    have "advance net (3000 * k + r) (mount net t0) = tick net (advance net n (mount net t0))"
      using Suc.hyps(2) by (metis advance.simps(2))
    then show ?thesis
      using blink_part_tick [OF ih [THEN conjunct1], of net] ih k n 0
      by (simp add: blink_fire_def algebra_simps)
  next
    case (Suc q)
    then have n: "n = 3000 * k + q" "q < 3000" using Suc.hyps(2) Suc.prems by simp_all
    have ih: "blink_part (advance net n (mount net t0)) =
        (0 < k \<and> q < 1000,
         if k = 0 then t0 else t0 + 3000 * int k,
         \<lparr>due = t0 + 3000 * int k + 3000, period = Some 3000, job = RunBlink\<rparr> #
         (if 0 < k \<and> q < 1000
          then [\<lparr>due = t0 + 3000 * int k + 1000, period = None, job = BlinkOff\<rparr>] else [])) \<and>
        clock (advance net n (mount net t0)) = t0 + int n"
      using Suc.hyps(1) [of k q] n by simp
    have step: "advance net (3000 * k + r) (mount net t0) = tick net (advance net n (mount net t0))"
      using Suc.hyps(2) by (metis advance.simps(2))
    have r: "r < 3000" using Suc.prems .
    show ?thesis
      unfolding step
      using blink_part_tick [OF ih [THEN conjunct1], of net] ih n Suc r
      by (auto simp: blink_fire_def)
  qed
qed

text \<open>
  Claim C8. Whatever the network does to the polls, \<open>n\<close> milliseconds after the mount
  the blink indicator is on exactly when a multiple of three seconds has passed less
  than one second ago, and the label shows the time of the last such multiple (the time
  of the mount before the first one).
\<close>

theorem blink_every_three_seconds:
  "isBlinking (widget (advance net n (mount net t0))) = (3000 \<le> n \<and> n mod 3000 < 1000) \<and>
   lastUpdated (widget (advance net n (mount net t0))) =
     (if n < 3000 then t0 else t0 + int (n - n mod 3000)) \<and>
   clock (advance net n (mount net t0)) = t0 + int n"
proof -
  have r: "n mod 3000 < 3000" by simp
  have n: "3000 * (n div 3000) + n mod 3000 = n" by simp
  have k: "(0 < n div 3000) = (3000 \<le> n)" "(n div 3000 = 0) = (n < 3000)"
    by (simp_all add: div_greater_zero_iff div_eq_0_iff)
  have "n - n mod 3000 = 3000 * (n div 3000)"
    by (simp add: minus_mod_eq_mult_div)
  then have m: "3000 * int (n div 3000) = int (n - n mod 3000)"
    by simp
  show ?thesis
    using blink_part_advance [OF r, of net "n div 3000" t0] k m
    unfolding n by (simp add: blink_part_def)
qed

theorem blink_every_three_seconds_witness:
  "isBlinking (widget (advance net_down 3500 (mount net_down 0))) \<and>
   lastUpdated (widget (advance net_down 3500 (mount net_down 0))) = 3000 \<and>
   \<not> isBlinking (widget (advance net_down 4000 (mount net_down 0))) \<and>
   lastUpdated (widget (advance net_down 5999 (mount net_down 0))) = 3000 \<and>
   isBlinking (widget (advance net_down 6000 (mount net_down 0))) \<and>
   lastUpdated (widget (advance net_down 6000 (mount net_down 0))) = 6000"
  using blink_every_three_seconds [of net_down 3500 0]
    blink_every_three_seconds [of net_down 4000 0]
    blink_every_three_seconds [of net_down 5999 0]
    blink_every_three_seconds [of net_down 6000 0]
  by (simp del: advance.simps)

end
